theory Spec2Isabelle
  imports Main "HOL-Library.Sublist"
begin

section \<open>Python strings\<close>

text \<open>
  Python \<^verbatim>\<open>str\<close> values are modelled as \<^typ>\<open>string\<close>, a character being a code point
  below 256. There \<^verbatim>\<open>str.lower()\<close> maps the letters A to Z and the capital letters of the
  upper half (0xC0 to 0xDE without the multiplication sign 0xD7) to the code point 32
  higher; \<^verbatim>\<open>\d\<close> is one of the ten digits; and \<^verbatim>\<open>\s\<close>, which is also what
  \<^verbatim>\<open>str.strip()\<close> removes, is the blank, the controls 0x09 to 0x0D and 0x1C to 0x1F, the
  next-line control 0x85 and the no-break space 0xA0.
\<close>

definition is_upper :: "char \<Rightarrow> bool" where
  "is_upper c =
     ((65 \<le> (of_char c :: nat) \<and> (of_char c :: nat) \<le> 90)
      \<or> (192 \<le> (of_char c :: nat) \<and> (of_char c :: nat) \<le> 222 \<and> (of_char c :: nat) \<noteq> 215))"

definition lower_char :: "char \<Rightarrow> char" where
  "lower_char c = (if is_upper c then char_of ((of_char c :: nat) + 32) else c)"

definition py_lower :: "string \<Rightarrow> string" where
  "py_lower s = map lower_char s"

definition is_digit :: "char \<Rightarrow> bool" where
  "is_digit c = (c \<in> set ''0123456789'')"

definition is_space :: "char \<Rightarrow> bool" where
  "is_space c = (c \<in> set [CHR '' '', CHR 0x09, CHR 0x0A, CHR 0x0B, CHR 0x0C, CHR 0x0D,
                            CHR 0x1C, CHR 0x1D, CHR 0x1E, CHR 0x1F, CHR 0x85, CHR 0xA0])"

definition py_strip :: "string \<Rightarrow> string" where
  "py_strip s = rev (dropWhile is_space (rev (dropWhile is_space s)))"

text \<open>\<^verbatim>\<open>s.startswith(p)\<close> and the substring test \<^verbatim>\<open>p in s\<close>.\<close>

fun starts_with :: "string \<Rightarrow> string \<Rightarrow> bool" where
  "starts_with s [] = True"
| "starts_with [] (p # ps) = False"
| "starts_with (c # cs) (p # ps) = (c = p \<and> starts_with cs ps)"

fun py_in :: "string \<Rightarrow> string \<Rightarrow> bool" where
  "py_in p [] = (p = [])"
| "py_in p (c # cs) = (starts_with (c # cs) p \<or> py_in p cs)"

text \<open>\<^verbatim>\<open>sep.join(xs)\<close>.\<close>

fun py_join :: "string \<Rightarrow> string list \<Rightarrow> string" where
  "py_join sep [] = []"
| "py_join sep [x] = x"
| "py_join sep (x # y # ys) = x @ sep @ py_join sep (y # ys)"

text \<open>\<^verbatim>\<open>xs[:n]\<close> for a Python integer \<open>n\<close>: a negative bound counts from the end.\<close>

definition py_slice_to :: "int \<Rightarrow> 'a list \<Rightarrow> 'a list" where
  "py_slice_to n xs = (if 0 \<le> n then take (nat n) xs else take (length xs - nat (- n)) xs)"

section \<open>Paper records\<close>

text \<open>
  The dictionaries the tool passes around. A key that a dictionary may lack is an option
  field; \<open>None\<close> is the absent key.
\<close>

record performance_metrics =
  strain :: "string option"
  energy_density :: "string option"
  response_time :: "string option"

record key_info =
  dea_type :: "string list"
  materials :: "string list"
  performance_metrics :: performance_metrics
  applications :: "string list"

record paper =
  title :: "string option"
  authors :: "string list option"
  abstract :: "string option"
  publication_date :: "string option"
  doi :: "string option"
  url :: "string option"
  source :: "string option"
  error :: "string option"
  key_info :: "key_info option"

definition empty_paper :: paper where
  "empty_paper = \<lparr>title = None, authors = None, abstract = None, publication_date = None,
     doi = None, url = None, source = None, error = None, key_info = None\<rparr>"

text \<open>\<^verbatim>\<open>d.get(key, default)\<close> on such a field.\<close>

definition get_or :: "'a option \<Rightarrow> 'a \<Rightarrow> 'a" where
  "get_or v d = (case v of Some x \<Rightarrow> x | None \<Rightarrow> d)"

section \<open>Keyword extraction: \<^verbatim>\<open>extract_key_info\<close>\<close>

definition dea_types :: "string list" where
  "dea_types = [''dielectric elastomer actuator'', ''DEA'', ''dielectric elastomer'']"

definition materials_vocab :: "string list" where
  "materials_vocab = [''silicone'', ''acrylic'', ''polyurethane'', ''VHB'', ''PDMS'']"

definition applications_vocab :: "string list" where
  "applications_vocab = [''soft robot'', ''wearable'', ''haptic'', ''sensor'', ''energy harvesting'']"

text \<open>
  The loop \<^verbatim>\<open>for v in vocab: if v.lower() in text: out.append(v)\<close>, with \<open>out\<close> the list
  built so far.
\<close>

fun scan_vocab :: "string list \<Rightarrow> string \<Rightarrow> string list \<Rightarrow> string list" where
  "scan_vocab [] text out = out"
| "scan_vocab (v # vs) text out =
     scan_vocab vs text (if py_in (py_lower v) text then out @ [v] else out)"

text \<open>
  The number \<^verbatim>\<open>(\d+\.?\d*)\<close> at the head of a string, with the rest of the string. Both
  patterns continue with a character that is neither a digit nor a dot, so the only parse
  of the number that can be completed is the longest one.
\<close>

definition match_number :: "string \<Rightarrow> (string \<times> string) option" where
  "match_number s =
     (let ds = takeWhile is_digit s; r = dropWhile is_digit s in
      if ds = [] then None
      else (case r of
              c # r' \<Rightarrow>
                if c = CHR ''.''
                then Some (ds @ ''.'' @ takeWhile is_digit r', dropWhile is_digit r')
                else Some (ds, r)
            | [] \<Rightarrow> Some (ds, r)))"

definition skip_spaces :: "string \<Rightarrow> string" where
  "skip_spaces s = dropWhile is_space s"

text \<open>\<^verbatim>\<open>(\d+\.?\d*)%\s*(?:strain|area\s*strain)\<close> anchored at the head of the string.\<close>

definition strain_match_here :: "string \<Rightarrow> string option" where
  "strain_match_here s =
     (case match_number s of
        None \<Rightarrow> None
      | Some (num, r) \<Rightarrow>
          (case r of
             c # r' \<Rightarrow>
               if c = CHR ''%'' then
                 (let t = skip_spaces r' in
                  if starts_with t ''strain'' then Some num
                  else if starts_with t ''area'' \<and> starts_with (skip_spaces (drop 4 t)) ''strain''
                  then Some num else None)
               else None
           | [] \<Rightarrow> None))"

text \<open>\<^verbatim>\<open>(\d+\.?\d*)\s*(?:j/kg|joule/kg|j\s*kg-1)\<close> anchored at the head of the string.\<close>

definition energy_match_here :: "string \<Rightarrow> string option" where
  "energy_match_here s =
     (case match_number s of
        None \<Rightarrow> None
      | Some (num, r) \<Rightarrow>
          (let t = skip_spaces r in
           if starts_with t ''j/kg'' \<or> starts_with t ''joule/kg''
              \<or> (starts_with t ''j'' \<and> starts_with (skip_spaces (drop 1 t)) ''kg-1'')
           then Some num else None))"

text \<open>
  The first element of \<^verbatim>\<open>re.findall(pattern, text)\<close>, if there is one: the group of the
  leftmost match.
\<close>

fun first_match :: "(string \<Rightarrow> string option) \<Rightarrow> string \<Rightarrow> string option" where
  "first_match m [] = None"
| "first_match m (c # cs) = (case m (c # cs) of Some g \<Rightarrow> Some g | None \<Rightarrow> first_match m cs)"

definition extract_key_info :: "paper \<Rightarrow> key_info" where
  "extract_key_info p =
     (let dea = scan_vocab dea_types (py_lower (get_or (abstract p) [])) [];
          mats = scan_vocab materials_vocab (py_lower (get_or (abstract p) [])) [];
          abstract_l = py_lower (get_or (abstract p) []);
          st = (case first_match strain_match_here abstract_l of
                  Some g \<Rightarrow> Some (g @ ''%'') | None \<Rightarrow> None);
          en = (case first_match energy_match_here abstract_l of
                  Some g \<Rightarrow> Some (g @ '' J/kg'') | None \<Rightarrow> None);
          apps = scan_vocab applications_vocab abstract_l []
      in \<lparr>dea_type = dea, materials = mats,
          performance_metrics = \<lparr>strain = st, energy_density = en, response_time = None\<rparr>,
          applications = apps\<rparr>)"

section \<open>Source adapters\<close>

text \<open>
  A caught exception \<open>e\<close> is kept as its message \<^verbatim>\<open>str(e)\<close>. The HTTP client and the markup
  parser are libraries: a page is the outcome of the queries the code puts to it, and the
  network maps the requested address to \<open>Inl\<close> of the exception raised by the request, by
  \<^verbatim>\<open>raise_for_status\<close> or by the parser, or to \<open>Inr\<close> of the page.
\<close>

datatype exn = Exn string

fun message :: "exn \<Rightarrow> string" where
  "message (Exn m) = m"

record nature_page =
  np_h1 :: "string option"
  np_author_list :: "string option list option"
  np_abs1_content :: "string option"
  np_abstract_section :: "string option"
  np_time :: "string option"
  np_view_doi :: "string option"

record arxiv_entry =
  ae_title :: "string option"
  ae_authors :: "string option list"
  ae_summary :: "string option"
  ae_published :: "string option"

record pubmed_page =
  pp_hgroup :: "string option option"
  pp_contrib_groups :: "string list list"
  pp_abstract :: "string option"
  pp_time :: "string option"

record article =
  ar_h3 :: "string option"
  ar_view_article :: "string option option"

record net =
  get_nature :: "string \<Rightarrow> exn + nature_page"
  get_arxiv :: "string \<Rightarrow> exn + arxiv_entry option"
  get_pubmed :: "string \<Rightarrow> exn + pubmed_page"
  get_search :: "string \<Rightarrow> exn + article list"
  get_pmc_ids :: "string \<Rightarrow> exn + string list"

text \<open>
  In \<open>np_author_list\<close> the outer option is the author list container and each element is the
  text of the first link of one list item; in \<open>pp_hgroup\<close> the outer option is the
  \<^verbatim>\<open>hgroup\<close> element and the inner one the text of its \<^verbatim>\<open>h1\<close>; in \<open>ar_view_article\<close> the
  outer option is the tracked link and the inner one its \<^verbatim>\<open>href\<close> attribute.
\<close>

definition error_paper :: "string \<Rightarrow> exn \<Rightarrow> paper" where
  "error_paper u e = empty_paper\<lparr>title := Some ''Error fetching paper'', url := Some u,
     error := Some (message e)\<rparr>"

fun nature_authors :: "string option list \<Rightarrow> string list \<Rightarrow> string list" where
  "nature_authors [] out = out"
| "nature_authors (None # items) out = nature_authors items out"
| "nature_authors (Some a # items) out = nature_authors items (out @ [py_strip a])"

definition fetch_nature_paper :: "net \<Rightarrow> string \<Rightarrow> paper" where
  "fetch_nature_paper n u =
     (case get_nature n u of
        Inl e \<Rightarrow> error_paper u e
      | Inr soup \<Rightarrow>
          (let title' = (case np_h1 soup of Some t \<Rightarrow> py_strip t | None \<Rightarrow> ''Title not found'');
               authors' = (case np_author_list soup of
                             Some items \<Rightarrow> nature_authors items [] | None \<Rightarrow> []);
               abstract_section = (case np_abs1_content soup of
                                     Some a \<Rightarrow> Some a | None \<Rightarrow> np_abstract_section soup);
               abstract' = (case abstract_section of
                              Some a \<Rightarrow> py_strip a | None \<Rightarrow> ''Abstract not found'');
               pub_date = (case np_time soup of
                             Some d \<Rightarrow> py_strip d | None \<Rightarrow> ''Publication date not found'');
               doi' = (case np_view_doi soup of Some d \<Rightarrow> py_strip d | None \<Rightarrow> ''DOI not found'')
           in empty_paper\<lparr>title := Some title', authors := Some authors',
                abstract := Some abstract', publication_date := Some pub_date,
                doi := Some doi', url := Some u, source := Some ''Nature''\<rparr>))"

text \<open>\<^verbatim>\<open>url.split('/')[-1]\<close>: what follows the last slash.\<close>

definition last_segment :: "string \<Rightarrow> string" where
  "last_segment u = rev (takeWhile (\<lambda>c. c \<noteq> CHR ''/'') (rev u))"

text \<open>The messages of the \<^verbatim>\<open>AttributeError\<close> raised by a query on a missing element.\<close>

definition quoted :: "string \<Rightarrow> string" where
  "quoted s = [CHR 0x27] @ s @ [CHR 0x27]"

definition no_find :: exn where
  "no_find = Exn (quoted ''NoneType'' @ '' object has no attribute '' @ quoted ''find'')"

definition no_text :: exn where
  "no_text = Exn (quoted ''NoneType'' @ '' object has no attribute '' @ quoted ''text'')"

text \<open>The loop over the author elements; an author without a name element raises.\<close>

fun arxiv_authors :: "string option list \<Rightarrow> string list \<Rightarrow> exn + string list" where
  "arxiv_authors [] out = Inr out"
| "arxiv_authors (None # as) out = Inl no_text"
| "arxiv_authors (Some a # as) out = arxiv_authors as (out @ [py_strip a])"

definition arxiv_body :: "net \<Rightarrow> string \<Rightarrow> exn + paper" where
  "arxiv_body n u =
     (let arxiv_id = last_segment u;
          api_url = ''http://export.arxiv.org/api/query?id_list='' @ arxiv_id
      in case get_arxiv n api_url of
           Inl e \<Rightarrow> Inl e
         | Inr None \<Rightarrow> Inl no_find
         | Inr (Some entry) \<Rightarrow>
             (case ae_title entry of
                None \<Rightarrow> Inl no_text
              | Some t \<Rightarrow>
                  (case arxiv_authors (ae_authors entry) [] of
                     Inl e \<Rightarrow> Inl e
                   | Inr authors' \<Rightarrow>
                       (case ae_summary entry of
                          None \<Rightarrow> Inl no_text
                        | Some a \<Rightarrow>
                            (case ae_published entry of
                               None \<Rightarrow> Inl no_text
                             | Some d \<Rightarrow>
                                 Inr (empty_paper\<lparr>title := Some (py_strip t),
                                        authors := Some authors',
                                        abstract := Some (py_strip a),
                                        publication_date := Some (py_strip d),
                                        url := Some u, source := Some ''arXiv''\<rparr>))))))"

definition fetch_arxiv_paper :: "net \<Rightarrow> string \<Rightarrow> paper" where
  "fetch_arxiv_paper n u = (case arxiv_body n u of Inl e \<Rightarrow> error_paper u e | Inr p \<Rightarrow> p)"

fun pubmed_authors :: "string list list \<Rightarrow> string list \<Rightarrow> string list" where
  "pubmed_authors [] out = out"
| "pubmed_authors (g # gs) out = pubmed_authors gs (out @ map py_strip g)"

definition fetch_pubmed_paper :: "net \<Rightarrow> string \<Rightarrow> paper" where
  "fetch_pubmed_paper n u =
     (case get_pubmed n u of
        Inl e \<Rightarrow> error_paper u e
      | Inr soup \<Rightarrow>
          (let title' = (case pp_hgroup soup of
                           Some (Some t) \<Rightarrow> py_strip t | Some None \<Rightarrow> [] | None \<Rightarrow> []);
               authors' = (case pp_hgroup soup of
                             Some h \<Rightarrow> pubmed_authors (pp_contrib_groups soup) [] | None \<Rightarrow> []);
               abstract' = (case pp_abstract soup of
                              Some a \<Rightarrow> py_strip a | None \<Rightarrow> ''Abstract not found'');
               pub_date = (case pp_time soup of
                             Some d \<Rightarrow> py_strip d | None \<Rightarrow> ''Publication date not found'')
           in empty_paper\<lparr>title := Some title', authors := Some authors',
                abstract := Some abstract', publication_date := Some pub_date,
                url := Some u, source := Some ''PubMed Central''\<rparr>))"

text \<open>
  \<^verbatim>\<open>fetch_paper\<close>. The parameter \<open>netloc\<close> is \<^verbatim>\<open>urlparse(url).netloc\<close> of the standard
  library, which raises \<^verbatim>\<open>ValueError\<close> on some malformed addresses; nothing catches it here.
\<close>

definition fetch_paper :: "(string \<Rightarrow> exn + string) \<Rightarrow> net \<Rightarrow> string \<Rightarrow> exn + paper" where
  "fetch_paper netloc n u =
     (case netloc u of
        Inl e \<Rightarrow> Inl e
      | Inr domain \<Rightarrow>
          if py_in ''nature.com'' domain then Inr (fetch_nature_paper n u)
          else if py_in ''arxiv.org'' domain then Inr (fetch_arxiv_paper n u)
          else if py_in ''ncbi.nlm.nih.gov'' domain then Inr (fetch_pubmed_paper n u)
          else Inr (empty_paper\<lparr>title := Some ''Unsupported source'', url := Some u,
                      error := Some (''Source '' @ domain @ '' is not supported yet'')\<rparr>))"

section \<open>Search: \<^verbatim>\<open>search_papers\<close>\<close>

record search_hit =
  sh_title :: string
  sh_url :: string
  sh_source :: string

definition key_error_href :: exn where
  "key_error_href = Exn (quoted ''href'')"

text \<open>
  The loop over the listing elements. It returns the list built so far together with the
  exception that ended it, if one did: a tracked link without \<^verbatim>\<open>href\<close> raises
  \<^verbatim>\<open>KeyError\<close>.
\<close>

fun articles_loop :: "article list \<Rightarrow> search_hit list \<Rightarrow> search_hit list \<times> exn option" where
  "articles_loop [] results = (results, None)"
| "articles_loop (a # as) results =
     (case (ar_h3 a, ar_view_article a) of
        (Some t, Some link_elem) \<Rightarrow>
          (case link_elem of
             None \<Rightarrow> (results, Some key_error_href)
           | Some href \<Rightarrow>
               articles_loop as
                 (results @ [\<lparr>sh_title = py_strip t, sh_url = ''https://www.nature.com'' @ href,
                               sh_source = ''Nature''\<rparr>]))
      | _ \<Rightarrow> articles_loop as results)"

definition search_papers :: "net \<Rightarrow> string \<Rightarrow> int \<Rightarrow> search_hit list" where
  "search_papers n query max_results =
     (let nature_search_url =
            ''https://www.nature.com/search?q='' @ query @ ''&order=relevance&journal=''
      in case get_search n nature_search_url of
           Inl e \<Rightarrow> []
         | Inr articles \<Rightarrow> fst (articles_loop (py_slice_to max_results articles) []))"

section \<open>Report: \<^verbatim>\<open>generate_report\<close>\<close>

text \<open>Decimal rendering of a number in an f-string.\<close>

definition digit_char :: "nat \<Rightarrow> char" where
  "digit_char d = ''0123456789'' ! d"

fun show_nat :: "nat \<Rightarrow> string" where
  "show_nat n = (if n < 10 then [digit_char n] else show_nat (n div 10) @ [digit_char (n mod 10)])"

definition show_int :: "int \<Rightarrow> string" where
  "show_int i = (if i < 0 then ''-'' @ show_nat (nat (- i)) else show_nat (nat i))"

text \<open>
  A tally is a dictionary from label to count; its items come out in the order in which the
  labels were first seen. \<open>bump\<close> is \<^verbatim>\<open>d[k] = d.get(k, 0) + 1\<close>.
\<close>

type_synonym tally = "(string \<times> nat) list"

fun bump :: "string \<Rightarrow> tally \<Rightarrow> tally" where
  "bump k [] = [(k, 1)]"
| "bump k ((k', c) # d) = (if k = k' then (k', c + 1) # d else (k', c) # bump k d)"

fun bump_all :: "string list \<Rightarrow> tally \<Rightarrow> tally" where
  "bump_all [] d = d"
| "bump_all (k # ks) d = bump_all ks (bump k d)"

text \<open>One tally loop over the papers; \<open>labels\<close> gives the labels a paper contributes.\<close>

fun tally_papers :: "(paper \<Rightarrow> string list) \<Rightarrow> paper list \<Rightarrow> tally \<Rightarrow> tally" where
  "tally_papers labels [] d = d"
| "tally_papers labels (p # ps) d = tally_papers labels ps (bump_all (labels p) d)"

fun tally_lines :: "tally \<Rightarrow> string" where
  "tally_lines [] = []"
| "tally_lines ((k, c) # d) = ''- '' @ k @ '': '' @ show_nat c @ '' papers\<newline>'' @ tally_lines d"

definition source_labels :: "paper \<Rightarrow> string list" where
  "source_labels p = [get_or (source p) ''Unknown'']"

definition key_info_labels :: "(key_info \<Rightarrow> string list) \<Rightarrow> paper \<Rightarrow> string list" where
  "key_info_labels field p = (case key_info p of None \<Rightarrow> [] | Some k \<Rightarrow> field k)"

text \<open>
  A collection of the annotation in the per-paper subsection: the default list stands in
  only where the key is missing, which is where the paper has no annotation at all.
\<close>

definition collection_text :: "(key_info \<Rightarrow> string list) \<Rightarrow> paper \<Rightarrow> string" where
  "collection_text field p =
     py_join '', '' (case key_info p of None \<Rightarrow> [''Not specified''] | Some k \<Rightarrow> field k)"

text \<open>
  A metric in the per-paper subsection: the default stands in only where the key is missing;
  a metric that is present with the value \<^verbatim>\<open>None\<close> is formatted as \<^verbatim>\<open>None\<close>.
\<close>

definition metric_text :: "(performance_metrics \<Rightarrow> string option) \<Rightarrow> paper \<Rightarrow> string" where
  "metric_text field p =
     (case key_info p of
        None \<Rightarrow> ''Not specified''
      | Some k \<Rightarrow> (case field (performance_metrics k) of None \<Rightarrow> ''None'' | Some v \<Rightarrow> v))"

definition paper_section :: "nat \<Rightarrow> paper \<Rightarrow> string" where
  "paper_section i p =
     ''### '' @ show_nat i @ ''. '' @ get_or (title p) ''No title'' @ ''\<newline>\<newline>''
     @ ''- **Source**: '' @ get_or (source p) ''Unknown'' @ ''\<newline>''
     @ ''- **URL**: '' @ get_or (url p) ''No URL'' @ ''\<newline>''
     @ ''- **Authors**: '' @ py_join '', '' (get_or (authors p) [''Unknown'']) @ ''\<newline>''
     @ ''- **Publication Date**: '' @ get_or (publication_date p) ''Unknown'' @ ''\<newline>''
     @ ''- **DEA Types**: '' @ collection_text dea_type p @ ''\<newline>''
     @ ''- **Materials**: '' @ collection_text materials p @ ''\<newline>''
     @ ''- **Performance Metrics**:\<newline>''
     @ ''  - Strain: '' @ metric_text strain p @ ''\<newline>''
     @ ''  - Energy Density: '' @ metric_text energy_density p @ ''\<newline>''
     @ ''  - Response Time: '' @ metric_text response_time p @ ''\<newline>''
     @ ''- **Applications**: '' @ collection_text applications p @ ''\<newline>''
     @ ''\<newline>''"

text \<open>The loop \<^verbatim>\<open>for i, paper in enumerate(papers, 1)\<close>, from index \<open>i\<close> on.\<close>

fun paper_sections :: "nat \<Rightarrow> paper list \<Rightarrow> string" where
  "paper_sections i [] = []"
| "paper_sections i (p # ps) = paper_section i p @ paper_sections (Suc i) ps"

text \<open>\<open>now\<close> is the formatted time of generation.\<close>

definition generate_report :: "string \<Rightarrow> paper list \<Rightarrow> string" where
  "generate_report now papers =
     ''# DEA Research Report\<newline>\<newline>''
     @ ''Generated on: '' @ now @ ''\<newline>\<newline>''
     @ ''Total papers analyzed: '' @ show_nat (length papers) @ ''\<newline>\<newline>''
     @ ''## Sources\<newline>\<newline>'' @ tally_lines (tally_papers source_labels papers []) @ ''\<newline>''
     @ ''## DEA Types\<newline>\<newline>''
     @ tally_lines (tally_papers (key_info_labels dea_type) papers []) @ ''\<newline>''
     @ ''## Materials\<newline>\<newline>''
     @ tally_lines (tally_papers (key_info_labels materials) papers []) @ ''\<newline>''
     @ ''## Applications\<newline>\<newline>''
     @ tally_lines (tally_papers (key_info_labels applications) papers []) @ ''\<newline>''
     @ ''## Papers\<newline>\<newline>''
     @ paper_sections 1 papers"

text \<open>
  \<^verbatim>\<open>process_papers\<close> up to the files it writes: the records handed to the report. A record
  is annotated unless it carries an error.
\<close>

definition annotate :: "paper \<Rightarrow> paper" where
  "annotate p = (case error p of None \<Rightarrow> p\<lparr>key_info := Some (extract_key_info p)\<rparr> | Some e \<Rightarrow> p)"

section \<open>The web job: \<^verbatim>\<open>search_worker\<close>, \<^verbatim>\<open>start\<close>, \<^verbatim>\<open>stop\<close>\<close>

text \<open>
  The module keeps a cancellation flag and a results list that every thread shares. A
  thread running \<^verbatim>\<open>search_worker\<close> is a worker with its local variables and a control
  point; one step of a worker holds exactly one access to the shared state, together with
  the thread-local work around it. The threads are interleaved step by step.
\<close>

record entry =
  en_title :: string
  en_authors :: "string list"
  en_url :: string

datatype pc =
    Init
  | NatureLoop "search_hit list"
  | NatureAppend search_hit "search_hit list"
  | PmcGate
  | PmcLoop "string list"
  | PmcAppend paper string "string list"
  | Finished

text \<open>
  \<open>Init\<close>: before \<^verbatim>\<open>results.clear()\<close>. \<open>NatureLoop hits\<close>: at the head of the first loop, with
  the papers still to come. \<open>NatureAppend hit hits\<close>: past the test of the flag, before the
  append. \<open>PmcGate\<close>: at the test that guards the second source. \<open>PmcLoop ids\<close> and
  \<open>PmcAppend paper url ids\<close>: the same two points in the second loop, the paper fetched.
\<close>

record worker =
  w_query :: string
  w_max_results :: int
  w_found :: int
  w_pc :: pc

record job =
  stop_event :: bool
  results :: "entry list"
  threads :: "worker list"

definition pmc_search_url :: "string \<Rightarrow> int \<Rightarrow> string" where
  "pmc_search_url query max_results =
     ''https://eutils.ncbi.nlm.nih.gov/entrez/eutils/esearch.fcgi?db=pmc&term='' @ query
     @ ''&retmax='' @ show_int max_results @ ''&retmode=json''"

definition pmc_article_url :: "string \<Rightarrow> string" where
  "pmc_article_url pmc_id = ''https://www.ncbi.nlm.nih.gov/pmc/articles/PMC'' @ pmc_id @ ''/''"

text \<open>
  One step of a worker from the control point it is at: from the flag and the results list
  as they are now to the new results list and the worker after the step.
\<close>

fun step_at :: "pc \<Rightarrow> net \<Rightarrow> bool \<Rightarrow> entry list \<Rightarrow> worker \<Rightarrow> entry list \<times> worker" where
  "step_at Init n flag res w =
     ([], w\<lparr>w_max_results := min (w_max_results w) 1000, w_found := 0,
            w_pc := NatureLoop (search_papers n (w_query w) (min (w_max_results w) 1000))\<rparr>)"
| "step_at (NatureLoop []) n flag res w = (res, w\<lparr>w_pc := PmcGate\<rparr>)"
| "step_at (NatureLoop (paper # rest)) n flag res w =
     (if flag \<or> w_found w \<ge> w_max_results w then (res, w\<lparr>w_pc := PmcGate\<rparr>)
      else (res, w\<lparr>w_pc := NatureAppend paper rest\<rparr>))"
| "step_at (NatureAppend paper rest) n flag res w =
     (res @ [\<lparr>en_title = sh_title paper, en_authors = [], en_url = sh_url paper\<rparr>],
      w\<lparr>w_found := w_found w + 1, w_pc := NatureLoop rest\<rparr>)"
| "step_at PmcGate n flag res w =
     (if \<not> flag \<and> w_found w < w_max_results w then
        (case get_pmc_ids n (pmc_search_url (w_query w) (w_max_results w)) of
           Inl e \<Rightarrow> (res, w\<lparr>w_pc := Finished\<rparr>)
         | Inr pmc_ids \<Rightarrow>
             (res, w\<lparr>w_pc := PmcLoop (py_slice_to (w_max_results w - w_found w) pmc_ids)\<rparr>))
      else (res, w\<lparr>w_pc := Finished\<rparr>))"
| "step_at (PmcLoop []) n flag res w = (res, w\<lparr>w_pc := Finished\<rparr>)"
| "step_at (PmcLoop (pmc_id # rest)) n flag res w =
     (if flag \<or> w_found w \<ge> w_max_results w then (res, w\<lparr>w_pc := Finished\<rparr>)
      else if error (fetch_pubmed_paper n (pmc_article_url pmc_id)) = None
      then (res, w\<lparr>w_pc := PmcAppend (fetch_pubmed_paper n (pmc_article_url pmc_id))
                              (pmc_article_url pmc_id) rest\<rparr>)
      else (res, w\<lparr>w_pc := PmcLoop rest\<rparr>))"
| "step_at (PmcAppend paper u rest) n flag res w =
     (case title paper of
        None \<Rightarrow> (res, w\<lparr>w_pc := Finished\<rparr>)
      | Some t \<Rightarrow>
          (res @ [\<lparr>en_title = t, en_authors = get_or (authors paper) [], en_url = u\<rparr>],
           w\<lparr>w_found := w_found w + 1, w_pc := PmcLoop rest\<rparr>))"
| "step_at Finished n flag res w = (res, w)"

definition worker_step :: "net \<Rightarrow> bool \<Rightarrow> entry list \<Rightarrow> worker \<Rightarrow> entry list \<times> worker" where
  "worker_step n flag res w = step_at (w_pc w) n flag res w"

definition running :: "worker \<Rightarrow> bool" where
  "running w = (w_pc w \<noteq> Finished)"

text \<open>
  The handlers. \<^verbatim>\<open>start\<close> clears the flag and starts a thread, whatever the threads
  started before are doing; \<^verbatim>\<open>stop\<close> sets the flag.
\<close>

definition start :: "string \<Rightarrow> int \<Rightarrow> job \<Rightarrow> job" where
  "start query max_results j =
     j\<lparr>stop_event := False,
       threads := threads j @ [\<lparr>w_query = query, w_max_results = max_results, w_found = 0,
                                 w_pc = Init\<rparr>]\<rparr>"

definition stop :: "job \<Rightarrow> job" where
  "stop j = j\<lparr>stop_event := True\<rparr>"

text \<open>The scheduler lets thread \<open>i\<close> take one step, the network answering as \<open>n\<close>.\<close>

definition run :: "nat \<Rightarrow> net \<Rightarrow> job \<Rightarrow> job" where
  "run i n j =
     (if i < length (threads j) then
        (case worker_step n (stop_event j) (results j) (threads j ! i) of
           (res, w) \<Rightarrow> j\<lparr>results := res, threads := (threads j)[i := w]\<rparr>)
      else j)"

datatype event = Start string int | Stop | Run nat net

fun is_Start :: "event \<Rightarrow> bool" where
  "is_Start (Start q m) = True"
| "is_Start e = False"

fun do_event :: "event \<Rightarrow> job \<Rightarrow> job" where
  "do_event (Start q m) j = start q m j"
| "do_event Stop j = stop j"
| "do_event (Run i n) j = run i n j"

fun exec :: "event list \<Rightarrow> job \<Rightarrow> job" where
  "exec [] j = j"
| "exec (e # es) j = exec es (do_event e j)"

definition idle_job :: job where
  "idle_job = \<lparr>stop_event = False, results = [], threads = []\<rparr>"

text \<open>The number of workers about to append: each is past its test of the flag.\<close>

fun appending :: "pc \<Rightarrow> nat" where
  "appending (NatureAppend paper rest) = 1"
| "appending (PmcAppend paper u rest) = 1"
| "appending p = 0"

definition appending_total :: "job \<Rightarrow> nat" where
  "appending_total j = sum_list (map (\<lambda>w. appending (w_pc w)) (threads j))"

text \<open>
  With the flag set, the number of steps a worker is from the end of its run, at most.
\<close>

fun distance :: "pc \<Rightarrow> nat" where
  "distance Init = 3"
| "distance (NatureAppend paper rest) = 3"
| "distance (NatureLoop hits) = 2"
| "distance (PmcAppend paper u rest) = 2"
| "distance PmcGate = 1"
| "distance (PmcLoop ids) = 1"
| "distance Finished = 0"

fun steps_of :: "nat \<Rightarrow> event \<Rightarrow> bool" where
  "steps_of i (Run k n) = (k = i)"
| "steps_of i e = False"

text \<open>
  The number of items by which an event lengthens the results list; the first step of a
  worker, which empties the list, adds none.
\<close>

definition added :: "job \<Rightarrow> job \<Rightarrow> nat" where
  "added j j' = length (results j') - length (results j)"

text \<open>The number of items that worker \<open>i\<close> itself appends along a schedule.\<close>

fun own_appends :: "nat \<Rightarrow> event list \<Rightarrow> job \<Rightarrow> nat" where
  "own_appends i [] j = 0"
| "own_appends i (e # es) j =
     (if steps_of i e then added j (do_event e j) else 0) + own_appends i es (do_event e j)"

text \<open>
  What a worker may still append: its whole clamped bound before its first step, and
  afterwards what its count leaves of the bound.
\<close>

definition budget :: "worker \<Rightarrow> nat" where
  "budget w =
     (if w_pc w = Init then nat (min (w_max_results w) 1000)
      else nat (w_max_results w - w_found w))"

section \<open>Sample inputs\<close>

definition scenario_abstract :: string where
  "scenario_abstract = ''This dielectric elastomer actuator achieves 150% area strain and 800 J/kg energy density in a soft robot application''"

definition listed :: "string \<Rightarrow> article" where
  "listed t = \<lparr>ar_h3 = Some t, ar_view_article = Some (Some (''/articles/'' @ t))\<rparr>"

definition bare_nature_page :: nature_page where
  "bare_nature_page = \<lparr>np_h1 = None, np_author_list = None, np_abs1_content = None,
     np_abstract_section = None, np_time = None, np_view_doi = None\<rparr>"

definition bare_pubmed_page :: pubmed_page where
  "bare_pubmed_page = \<lparr>pp_hgroup = None, pp_contrib_groups = [], pp_abstract = None,
     pp_time = None\<rparr>"

text \<open>
  A network whose pages answer no markup query, whose search page lists three articles and
  whose index query returns two ids.
\<close>

definition bare_net :: net where
  "bare_net = \<lparr>get_nature = (\<lambda>u. Inr bare_nature_page), get_arxiv = (\<lambda>u. Inr None),
     get_pubmed = (\<lambda>u. Inr bare_pubmed_page),
     get_search = (\<lambda>u. Inr [listed ''A'', listed ''B'', listed ''C'']),
     get_pmc_ids = (\<lambda>u. Inr [''1'', ''2''])\<rparr>"

text \<open>A job whose only worker is in its first loop, and a schedule with a second start.\<close>

definition busy_job :: job where
  "busy_job = exec [Start ''dea'' 5, Run 0 bare_net] idle_job"

definition two_worker_schedule :: "event list" where
  "two_worker_schedule =
     [Start ''dea'' 5, Run 0 bare_net, Run 0 bare_net, Run 0 bare_net,
      Start ''dea'' 5, Run 1 bare_net, Run 0 bare_net, Run 1 bare_net, Run 0 bare_net,
      Run 1 bare_net, Run 1 bare_net, Run 1 bare_net]"

definition three_steps :: "event list" where
  "three_steps = [Run 0 bare_net, Run 0 bare_net, Run 0 bare_net]"

text \<open>
  A job with two workers, both past the test of the flag and neither having appended, and
  a schedule of three steps of each.
\<close>

definition two_checked_job :: job where
  "two_checked_job =
     exec [Start ''dea'' 5, Run 0 bare_net, Run 0 bare_net,
           Start ''dea'' 5, Run 1 bare_net, Run 1 bare_net] idle_job"

definition both_step :: "event list" where
  "both_step =
     [Run 0 bare_net, Run 1 bare_net, Run 0 bare_net, Run 1 bare_net, Run 0 bare_net,
      Run 1 bare_net]"

text \<open>A start right after the stop, followed by twelve steps of the worker that was running.\<close>

definition restart_schedule :: "event list" where
  "restart_schedule = Start ''dea'' 5 # replicate 12 (Run 0 bare_net)"

text \<open>
  A second run, with the bound 1, started over the run of \<open>busy_job\<close>, and a schedule that
  lets both workers step in turn.
\<close>

definition overlapping_job :: job where
  "overlapping_job = start ''dea'' 1 busy_job"

definition overlap_schedule :: "event list" where
  "overlap_schedule = both_step @ [Stop] @ both_step @ [Start ''dea'' 3] @ both_step"

text \<open>
  The answer of \<^verbatim>\<open>urlparse\<close> at the address \<^verbatim>\<open>http://[invalid\<close>, whose host has an opening
  bracket without the closing one: it raises \<^verbatim>\<open>ValueError\<close>.
\<close>

definition bracket_netloc :: "string \<Rightarrow> exn + string" where
  "bracket_netloc u = Inl (Exn ''Invalid IPv6 URL'')"

definition down_net :: net where
  "down_net = \<lparr>get_nature = (\<lambda>u. Inl (Exn ''timeout'')), get_arxiv = (\<lambda>u. Inl (Exn ''timeout'')),
     get_pubmed = (\<lambda>u. Inl (Exn ''timeout'')), get_search = (\<lambda>u. Inl (Exn ''timeout'')),
     get_pmc_ids = (\<lambda>u. Inl (Exn ''timeout''))\<rparr>"

section \<open>Properties of the keyword extraction\<close>

lemma scan_vocab_filter:
  "scan_vocab vs text out = out @ filter (\<lambda>v. py_in (py_lower v) text) vs"
  by (induction vs arbitrary: out) simp_all

lemma distinct_vocabularies:
  "distinct dea_types" "distinct materials_vocab" "distinct applications_vocab"
  by (simp_all add: dea_types_def materials_vocab_def applications_vocab_def)

lemma extract_key_info_lists:
  "dea_type (extract_key_info p) =
     filter (\<lambda>v. py_in (py_lower v) (py_lower (get_or (abstract p) []))) dea_types"
  "materials (extract_key_info p) =
     filter (\<lambda>v. py_in (py_lower v) (py_lower (get_or (abstract p) []))) materials_vocab"
  "applications (extract_key_info p) =
     filter (\<lambda>v. py_in (py_lower v) (py_lower (get_or (abstract p) []))) applications_vocab"
  by (simp_all add: extract_key_info_def Let_def scan_vocab_filter)

text \<open>
  C6, as the specification states it: on the scenario abstract the DEA types would include
  all of "dielectric elastomer actuator", "DEA" and "dielectric elastomer". They do not:
  the lower-cased abstract has no occurrence of "dea".
\<close>

theorem scenario_dea_types_counterexample:
  "\<not> set [''dielectric elastomer actuator'', ''DEA'', ''dielectric elastomer'']
       \<subseteq> set (dea_type (extract_key_info (empty_paper\<lparr>abstract := Some scenario_abstract\<rparr>)))"
  by code_simp

text \<open>
  C6, amended: on the scenario abstract the annotation has the DEA types
  "dielectric elastomer actuator" and "dielectric elastomer" only, no material, the strain
  "150%", the energy density "800 J/kg", no response time and the one application
  "soft robot".
\<close>

theorem scenario_annotation:
  "extract_key_info (empty_paper\<lparr>abstract := Some scenario_abstract\<rparr>) =
     \<lparr>dea_type = [''dielectric elastomer actuator'', ''dielectric elastomer''],
      materials = [],
      performance_metrics =
        \<lparr>strain = Some ''150%'', energy_density = Some ''800 J/kg'', response_time = None\<rparr>,
      applications = [''soft robot'']\<rparr>"
  by code_simp

text \<open>
  C9: the annotation is a function of the abstract alone, so equal inputs give equal
  outputs; a paper without abstract, or with the empty one, gets empty collections and no
  metric; and the response time is unset whatever the input.
\<close>

theorem extract_key_info_pure:
  "(abstract p = abstract q \<longrightarrow> extract_key_info p = extract_key_info q)
   \<and> (get_or (abstract p) [] = [] \<longrightarrow>
        extract_key_info p =
          \<lparr>dea_type = [], materials = [],
           performance_metrics = \<lparr>strain = None, energy_density = None, response_time = None\<rparr>,
           applications = []\<rparr>)
   \<and> response_time (performance_metrics (extract_key_info p)) = None"
proof (intro conjI impI)
  assume "abstract p = abstract q"
  then show "extract_key_info p = extract_key_info q"
    by (simp add: extract_key_info_def)
next
  assume "get_or (abstract p) [] = []"
  then show "extract_key_info p =
      \<lparr>dea_type = [], materials = [],
       performance_metrics = \<lparr>strain = None, energy_density = None, response_time = None\<rparr>,
       applications = []\<rparr>"
    by (simp add: extract_key_info_def py_lower_def dea_types_def materials_vocab_def
        applications_vocab_def)
next
  show "response_time (performance_metrics (extract_key_info p)) = None"
    by (simp add: extract_key_info_def Let_def)
qed

theorem extract_key_info_pure_witness:
  "abstract empty_paper = abstract (empty_paper\<lparr>title := Some ''T''\<rparr>)
   \<and> extract_key_info empty_paper = extract_key_info (empty_paper\<lparr>title := Some ''T''\<rparr>)
   \<and> get_or (abstract empty_paper) [] = []
   \<and> extract_key_info empty_paper =
        \<lparr>dea_type = [], materials = [],
         performance_metrics = \<lparr>strain = None, energy_density = None, response_time = None\<rparr>,
         applications = []\<rparr>"
proof -
  have same: "abstract empty_paper = abstract (empty_paper\<lparr>title := Some ''T''\<rparr>)"
    by simp
  have none: "get_or (abstract empty_paper) [] = []"
    by (simp add: empty_paper_def get_or_def)
  from same none extract_key_info_pure [of empty_paper "empty_paper\<lparr>title := Some ''T''\<rparr>"]
  show ?thesis by blast
qed

text \<open>
  C10: each of the three lists is a subsequence of its vocabulary, in the order of the
  vocabulary and without repetition, so every element is a vocabulary string as the
  vocabulary spells it; and abstracts that differ in letter case only get the same lists.
\<close>

theorem vocabulary_lists:
  "subseq (dea_type (extract_key_info p)) dea_types
   \<and> distinct (dea_type (extract_key_info p))
   \<and> subseq (materials (extract_key_info p)) materials_vocab
   \<and> distinct (materials (extract_key_info p))
   \<and> subseq (applications (extract_key_info p)) applications_vocab
   \<and> distinct (applications (extract_key_info p))
   \<and> (py_lower (get_or (abstract p) []) = py_lower (get_or (abstract q) []) \<longrightarrow>
        dea_type (extract_key_info p) = dea_type (extract_key_info q)
        \<and> materials (extract_key_info p) = materials (extract_key_info q)
        \<and> applications (extract_key_info p) = applications (extract_key_info q))"
  by (simp add: extract_key_info_lists distinct_vocabularies)

theorem vocabulary_lists_witness:
  "py_lower (get_or (abstract (empty_paper\<lparr>abstract := Some ''vhb Dea''\<rparr>)) [])
     = py_lower (get_or (abstract (empty_paper\<lparr>abstract := Some ''VHB dEA''\<rparr>)) [])
   \<and> materials (extract_key_info (empty_paper\<lparr>abstract := Some ''vhb Dea''\<rparr>))
       = materials (extract_key_info (empty_paper\<lparr>abstract := Some ''VHB dEA''\<rparr>))
   \<and> subseq (materials (extract_key_info (empty_paper\<lparr>abstract := Some ''vhb Dea''\<rparr>)))
       materials_vocab"
proof -
  have same: "py_lower (get_or (abstract (empty_paper\<lparr>abstract := Some ''vhb Dea''\<rparr>)) [])
     = py_lower (get_or (abstract (empty_paper\<lparr>abstract := Some ''VHB dEA''\<rparr>)) [])"
    by code_simp
  with vocabulary_lists [of "empty_paper\<lparr>abstract := Some ''vhb Dea''\<rparr>"
      "empty_paper\<lparr>abstract := Some ''VHB dEA''\<rparr>"]
  show ?thesis by blast
qed

section \<open>Properties of the source adapters\<close>

text \<open>
  When \<^verbatim>\<open>urlparse\<close> gives a host that contains none of the three publisher domains,
  \<^verbatim>\<open>fetch_paper\<close> returns the record with the title "Unsupported source", the address, the
  error "Source <domain> is not supported yet" and no other key (so no source); the record
  does not depend on the network, which is not asked.
\<close>

lemma fetch_paper_unsupported:
  assumes "netloc u = Inr domain"
    and "\<not> py_in ''nature.com'' domain"
    and "\<not> py_in ''arxiv.org'' domain"
    and "\<not> py_in ''ncbi.nlm.nih.gov'' domain"
  shows "fetch_paper netloc n u =
     Inr \<lparr>title = Some ''Unsupported source'', authors = None, abstract = None,
          publication_date = None, doi = None, url = Some u, source = None,
          error = Some (''Source '' @ domain @ '' is not supported yet''), key_info = None\<rparr>"
  using assms by (simp add: fetch_paper_def empty_paper_def)

lemma fetch_paper_rejected: "netloc u = Inl e \<Longrightarrow> fetch_paper netloc n u = Inl e"
  by (simp add: fetch_paper_def)

text \<open>
  C5 at an address that \<^verbatim>\<open>urlparse\<close> rejects: the \<^verbatim>\<open>ValueError\<close> is raised before the
  host is compared with any domain, nothing catches it, and \<^verbatim>\<open>fetch_paper\<close> raises it
  instead of returning a record with the error set.
\<close>

theorem fetch_paper_raises:
  "fetch_paper bracket_netloc down_net ''http://[invalid'' = Inl (Exn ''Invalid IPv6 URL'')"
  by (simp add: fetch_paper_def bracket_netloc_def)

text \<open>
  C7, as the specification states it: on every supported host a page that answers no markup
  query would give the title "Title not found" in a record without error. On a PubMed
  Central page without a heading group the title is the empty string, and an arXiv answer
  without an entry gives an error record.
\<close>

theorem sentinel_counterexample:
  "fetch_paper (\<lambda>u. Inr ''www.ncbi.nlm.nih.gov'') bare_net
       ''https://www.ncbi.nlm.nih.gov/pmc/articles/PMC1/''
     = Inr (fetch_pubmed_paper bare_net ''https://www.ncbi.nlm.nih.gov/pmc/articles/PMC1/'')
   \<and> title (fetch_pubmed_paper bare_net ''https://www.ncbi.nlm.nih.gov/pmc/articles/PMC1/'')
       = Some []
   \<and> title (fetch_pubmed_paper bare_net ''https://www.ncbi.nlm.nih.gov/pmc/articles/PMC1/'')
       \<noteq> Some ''Title not found''
   \<and> fetch_paper (\<lambda>u. Inr ''arxiv.org'') bare_net ''https://arxiv.org/abs/2401.00001''
     = Inr (fetch_arxiv_paper bare_net ''https://arxiv.org/abs/2401.00001'')
   \<and> error (fetch_arxiv_paper bare_net ''https://arxiv.org/abs/2401.00001'') \<noteq> None"
  by code_simp

text \<open>
  C7, amended: a Nature page always gives a record without error, in which a missing
  heading gives the title "Title not found", a missing author list no authors, a missing
  abstract (in both places) "Abstract not found" and a missing time element
  "Publication date not found". A PubMed Central page always gives a record without error,
  in which a missing abstract and a missing time element give the same two sentinels and
  a missing heading group or no contributor group gives no authors (nothing is said of
  its title). An arXiv answer without an entry gives an error record.
\<close>

theorem markup_fallbacks:
  "(get_nature n u = Inr soup \<longrightarrow>
      error (fetch_nature_paper n u) = None
      \<and> (np_h1 soup = None \<longrightarrow> title (fetch_nature_paper n u) = Some ''Title not found'')
      \<and> (np_author_list soup = None \<longrightarrow> authors (fetch_nature_paper n u) = Some [])
      \<and> (np_abs1_content soup = None \<and> np_abstract_section soup = None \<longrightarrow>
           abstract (fetch_nature_paper n u) = Some ''Abstract not found'')
      \<and> (np_time soup = None \<longrightarrow>
           publication_date (fetch_nature_paper n u) = Some ''Publication date not found''))
   \<and> (get_pubmed n u = Inr page \<longrightarrow>
      error (fetch_pubmed_paper n u) = None
      \<and> (pp_hgroup page = None \<or> pp_contrib_groups page = [] \<longrightarrow>
           authors (fetch_pubmed_paper n u) = Some [])
      \<and> (pp_abstract page = None \<longrightarrow>
           abstract (fetch_pubmed_paper n u) = Some ''Abstract not found'')
      \<and> (pp_time page = None \<longrightarrow>
           publication_date (fetch_pubmed_paper n u) = Some ''Publication date not found''))
   \<and> (get_arxiv n (''http://export.arxiv.org/api/query?id_list='' @ last_segment u) = Inr None \<longrightarrow>
      fetch_arxiv_paper n u = error_paper u no_find)"
proof (intro conjI impI)
  assume "get_pubmed n u = Inr page" "pp_hgroup page = None \<or> pp_contrib_groups page = []"
  then show "authors (fetch_pubmed_paper n u) = Some []"
    by (auto simp: fetch_pubmed_paper_def empty_paper_def split: option.splits)
qed (simp_all add: fetch_nature_paper_def fetch_pubmed_paper_def fetch_arxiv_paper_def
    arxiv_body_def empty_paper_def)

theorem markup_fallbacks_witness:
  "get_nature bare_net ''https://www.nature.com/articles/x'' = Inr bare_nature_page
   \<and> get_pubmed bare_net ''https://www.nature.com/articles/x'' = Inr bare_pubmed_page
   \<and> np_h1 bare_nature_page = None
   \<and> title (fetch_nature_paper bare_net ''https://www.nature.com/articles/x'')
       = Some ''Title not found''
   \<and> error (fetch_nature_paper bare_net ''https://www.nature.com/articles/x'') = None
   \<and> pp_abstract bare_pubmed_page = None
   \<and> abstract (fetch_pubmed_paper bare_net ''https://www.nature.com/articles/x'')
       = Some ''Abstract not found''
   \<and> error (fetch_pubmed_paper bare_net ''https://www.nature.com/articles/x'') = None"
proof -
  have pages: "get_nature bare_net ''https://www.nature.com/articles/x'' = Inr bare_nature_page"
    "get_pubmed bare_net ''https://www.nature.com/articles/x'' = Inr bare_pubmed_page"
    by (simp_all add: bare_net_def)
  have missing: "np_h1 bare_nature_page = None" "pp_abstract bare_pubmed_page = None"
    by (simp_all add: bare_nature_page_def bare_pubmed_page_def)
  from pages missing
    markup_fallbacks [of bare_net "''https://www.nature.com/articles/x''" bare_nature_page
      bare_pubmed_page]
  show ?thesis by blast
qed

section \<open>Properties of the search\<close>

lemma articles_loop_length:
  "length (fst (articles_loop as rs)) \<le> length rs + length as"
proof (induction as arbitrary: rs)
  case Nil
  show ?case by simp
next
  case (Cons a as)
  have "length (fst (articles_loop as (rs @ [h]))) \<le> Suc (length rs + length as)" for h
    using Cons.IH [of "rs @ [h]"] by simp
  moreover have "length (fst (articles_loop as rs)) \<le> Suc (length rs + length as)"
    using Cons.IH [of rs] by simp
  ultimately show ?case
    by (simp split: option.splits)
qed

lemma search_papers_length:
  "0 \<le> max_results \<Longrightarrow> length (search_papers n query max_results) \<le> nat max_results"
proof -
  assume nonneg: "0 \<le> max_results"
  have "length (fst (articles_loop (take (nat max_results) as) [])) \<le> nat max_results" for as
    using articles_loop_length [of "take (nat max_results) as" "[]"] by simp
  with nonneg show ?thesis
    by (simp add: search_papers_def py_slice_to_def split: sum.splits)
qed

lemma search_papers_failure:
  "get_search n (''https://www.nature.com/search?q='' @ query @ ''&order=relevance&journal='')
     = Inl e \<Longrightarrow> search_papers n query max_results = []"
  by (simp add: search_papers_def)

lemma search_papers_zero: "search_papers n query 0 = []"
  by (simp add: search_papers_def py_slice_to_def split: sum.splits)

text \<open>
  C4 at a negative bound: the slice \<^verbatim>\<open>articles[:-1]\<close> drops the last listing element only,
  so a page of three complete elements gives two hits, more than the bound of -1 and more
  than none.
\<close>

theorem search_papers_negative_bound:
  "search_papers bare_net ''dea'' (- 1) =
     [\<lparr>sh_title = ''A'', sh_url = ''https://www.nature.com/articles/A'', sh_source = ''Nature''\<rparr>,
      \<lparr>sh_title = ''B'', sh_url = ''https://www.nature.com/articles/B'', sh_source = ''Nature''\<rparr>]"
  by code_simp

section \<open>Properties of the report\<close>

lemma generate_report_empty:
  "generate_report now [] =
     ''# DEA Research Report\<newline>\<newline>Generated on: '' @ now
     @ ''\<newline>\<newline>Total papers analyzed: 0\<newline>\<newline>## Sources\<newline>\<newline>\<newline>## DEA Types\<newline>\<newline>\<newline>## Materials\<newline>\<newline>\<newline>## Applications\<newline>\<newline>\<newline>## Papers\<newline>\<newline>''"
  by (simp add: generate_report_def digit_char_def)

text \<open>
  C8 at a paper whose annotation found nothing (a Nature page that answers no markup
  query, annotated as \<^verbatim>\<open>process_papers\<close> does): the empty collections are rendered as
  empty text and the unset metrics as "None"; "Not specified" does not occur in the report.
\<close>

theorem report_of_empty_annotation:
  "generate_report ''2024-01-01 00:00:00''
       [annotate (fetch_nature_paper bare_net ''https://www.nature.com/articles/x'')]
     = ''# DEA Research Report\<newline>\<newline>Generated on: 2024-01-01 00:00:00\<newline>\<newline>Total papers analyzed: 1\<newline>\<newline>## Sources\<newline>\<newline>- Nature: 1 papers\<newline>\<newline>## DEA Types\<newline>\<newline>\<newline>## Materials\<newline>\<newline>\<newline>## Applications\<newline>\<newline>\<newline>## Papers\<newline>\<newline>### 1. Title not found\<newline>\<newline>- **Source**: Nature\<newline>- **URL**: https://www.nature.com/articles/x\<newline>- **Authors**: \<newline>- **Publication Date**: Publication date not found\<newline>- **DEA Types**: \<newline>- **Materials**: \<newline>- **Performance Metrics**:\<newline>  - Strain: None\<newline>  - Energy Density: None\<newline>  - Response Time: None\<newline>- **Applications**: \<newline>\<newline>''
   \<and> \<not> py_in ''Not specified''
         (generate_report ''2024-01-01 00:00:00''
            [annotate (fetch_nature_paper bare_net ''https://www.nature.com/articles/x'')])"
  by code_simp

section \<open>Properties of the web job\<close>

text \<open>
  C1, as the specification states it: a start while a worker is running would change
  nothing and would never lead to two workers appending to the results list. Here one
  worker is running; the start changes the job and leaves two running workers, and under
  the schedule with a second start the list ends with the second hit of the first worker,
  then the first and second hit of the second worker.
\<close>

theorem start_while_running_counterexample:
  "running (threads busy_job ! 0)
   \<and> length (filter running (threads busy_job)) = 1
   \<and> start ''dea'' 5 busy_job \<noteq> busy_job
   \<and> length (filter running (threads (start ''dea'' 5 busy_job))) = 2
   \<and> map en_title (results (exec two_worker_schedule idle_job)) = [''B'', ''A'', ''B'']"
  by code_simp

lemma step_at_running:
  "running (snd (step_at p n flag res w)) \<Longrightarrow> w_pc w = p \<Longrightarrow> running w"
  by (cases p) (simp_all add: running_def)

lemma filter_update_le:
  "i < length xs \<Longrightarrow> (P y \<Longrightarrow> P (xs ! i)) \<Longrightarrow>
     length (filter P (xs[i := y])) \<le> length (filter P xs)"
proof (induction xs arbitrary: i)
  case Nil
  then show ?case by simp
next
  case (Cons x xs)
  show ?case
  proof (cases i)
    case 0
    with Cons.prems show ?thesis by auto
  next
    case (Suc k)
    with Cons.prems Cons.IH [of k] show ?thesis by auto
  qed
qed

lemma run_unfold:
  "i < length (threads j) \<Longrightarrow>
     step_at (w_pc (threads j ! i)) n (stop_event j) (results j) (threads j ! i) = (res, w) \<Longrightarrow>
     run i n j = j\<lparr>results := res, threads := (threads j)[i := w]\<rparr>"
  by (simp add: run_def worker_step_def)

lemma run_idle: "\<not> i < length (threads j) \<Longrightarrow> run i n j = j"
  by (simp add: run_def)

lemma run_running:
  "length (filter running (threads (run i n j))) \<le> length (filter running (threads j))"
proof (cases "i < length (threads j)")
  case True
  obtain res w
    where step: "step_at (w_pc (threads j ! i)) n (stop_event j) (results j) (threads j ! i) = (res, w)"
    by (cases "step_at (w_pc (threads j ! i)) n (stop_event j) (results j) (threads j ! i)")
  have "running w \<Longrightarrow> running (threads j ! i)"
    using step_at_running [of "w_pc (threads j ! i)" n "stop_event j" "results j" "threads j ! i"]
      step by simp
  with True show ?thesis
    by (simp add: run_unfold [OF True step] filter_update_le)
next
  case False
  then show ?thesis by (simp add: run_idle)
qed

lemma do_event_running:
  "\<not> is_Start e \<Longrightarrow>
     length (filter running (threads (do_event e j))) \<le> length (filter running (threads j))"
  by (cases e) (simp_all add: run_running stop_def)

lemma exec_running:
  "\<forall>e\<in>set evs. \<not> is_Start e \<Longrightarrow>
     length (filter running (threads (exec evs j))) \<le> length (filter running (threads j))"
proof (induction evs arbitrary: j)
  case Nil
  show ?case by simp
next
  case (Cons e evs)
  have "length (filter running (threads (exec evs (do_event e j))))
      \<le> length (filter running (threads (do_event e j)))"
    using Cons by simp
  also have "\<dots> \<le> length (filter running (threads j))"
    using Cons.prems by (simp add: do_event_running)
  finally show ?case by simp
qed

text \<open>
  C1, amended: every start, whether or not a worker is running, clears the flag, leaves
  the results list as it is and adds one running worker to those there are; no other
  event adds a running worker. So two workers do append to the shared list when a start
  arrives while one is running.
\<close>

theorem start_spawns_worker:
  "\<not> stop_event (start query max_results j)
   \<and> results (start query max_results j) = results j
   \<and> length (filter running (threads (start query max_results j)))
       = Suc (length (filter running (threads j)))
   \<and> ((\<forall>e\<in>set evs. \<not> is_Start e) \<longrightarrow>
        length (filter running (threads (exec evs j))) \<le> length (filter running (threads j)))"
  by (simp add: start_def running_def exec_running)

theorem start_spawns_worker_witness:
  "filter is_Start three_steps = []
   \<and> length (filter running (threads (start ''dea'' 5 busy_job)))
       = Suc (length (filter running (threads busy_job)))
   \<and> length (filter running (threads (exec three_steps busy_job)))
       \<le> length (filter running (threads busy_job))"
proof -
  have quiet: "\<forall>e\<in>set three_steps. \<not> is_Start e"
    by (simp add: three_steps_def)
  have none: "filter is_Start three_steps = []"
    by (simp add: three_steps_def)
  from quiet none start_spawns_worker [of "''dea''" 5 busy_job three_steps]
  show ?thesis by blast
qed

lemma step_at_flagged:
  "step_at p n True res w = (res', w') \<Longrightarrow> w_pc w = p \<Longrightarrow>
     length res' + appending (w_pc w') \<le> length res + appending p"
  by (cases "(p, n, True, res, w)" rule: step_at.cases) (auto split: option.splits)

lemma step_at_distance:
  "step_at p n True res w = (res', w') \<Longrightarrow> w_pc w = p \<Longrightarrow>
     distance (w_pc w') \<le> distance p - 1"
  by (cases "(p, n, True, res, w)" rule: step_at.cases) (auto split: option.splits)

lemma sum_list_update_eq:
  "i < length xs \<Longrightarrow>
     sum_list (map f (xs[i := y])) + f (xs ! i) = sum_list (map f xs) + (f y :: nat)"
proof (induction xs arbitrary: i)
  case Nil
  then show ?case by simp
next
  case (Cons x xs)
  show ?case
  proof (cases i)
    case 0
    then show ?thesis by simp
  next
    case (Suc k)
    with Cons.prems Cons.IH [of k] show ?thesis by simp
  qed
qed

lemma run_flagged:
  assumes "stop_event j"
  shows "length (results (run i n j)) + appending_total (run i n j)
           \<le> length (results j) + appending_total j"
proof (cases "i < length (threads j)")
  case True
  obtain res w
    where step: "step_at (w_pc (threads j ! i)) n True (results j) (threads j ! i) = (res, w)"
    by (cases "step_at (w_pc (threads j ! i)) n True (results j) (threads j ! i)")
  have one: "length res + appending (w_pc w) \<le> length (results j) + appending (w_pc (threads j ! i))"
    using step_at_flagged [OF step] by simp
  have total: "sum_list (map (\<lambda>w. appending (w_pc w)) ((threads j)[i := w]))
        + appending (w_pc (threads j ! i))
      = sum_list (map (\<lambda>w. appending (w_pc w)) (threads j)) + appending (w_pc w)"
    using True by (rule sum_list_update_eq)
  have "run i n j = j\<lparr>results := res, threads := (threads j)[i := w]\<rparr>"
    using True step assms by (simp add: run_unfold)
  with one total show ?thesis
    by (simp add: appending_total_def)
next
  case False
  then show ?thesis by (simp add: run_idle)
qed

lemma run_keeps:
  "stop_event (run i n j) = stop_event j"
  "length (threads (run i n j)) = length (threads j)"
  by (simp_all add: run_def split: prod.splits)

lemma do_event_keeps:
  "\<not> is_Start e \<Longrightarrow> stop_event j \<Longrightarrow> stop_event (do_event e j)"
  "\<not> is_Start e \<Longrightarrow> length (threads (do_event e j)) = length (threads j)"
  by (cases e, simp_all add: run_keeps stop_def)+

lemma do_event_flagged:
  "stop_event j \<Longrightarrow> \<not> is_Start e \<Longrightarrow>
     length (results (do_event e j)) + appending_total (do_event e j)
       \<le> length (results j) + appending_total j"
proof (cases e)
  case Stop
  then show ?thesis by (simp add: stop_def appending_total_def)
qed (simp_all add: run_flagged)

lemma exec_flagged:
  "stop_event j \<Longrightarrow> \<forall>e\<in>set evs. \<not> is_Start e \<Longrightarrow>
     length (results (exec evs j)) + appending_total (exec evs j)
       \<le> length (results j) + appending_total j"
proof (induction evs arbitrary: j)
  case Nil
  show ?case by simp
next
  case (Cons e evs)
  have "length (results (exec evs (do_event e j))) + appending_total (exec evs (do_event e j))
      \<le> length (results (do_event e j)) + appending_total (do_event e j)"
    using Cons by (simp add: do_event_keeps)
  also have "\<dots> \<le> length (results j) + appending_total j"
    using Cons.prems by (simp add: do_event_flagged)
  finally show ?case by simp
qed

lemma do_event_distance:
  assumes "stop_event j" "\<not> is_Start e" "i < length (threads j)"
  shows "distance (w_pc (threads (do_event e j) ! i))
           \<le> distance (w_pc (threads j ! i)) - (if steps_of i e then 1 else 0)"
proof (cases e)
  case (Run k n)
  show ?thesis
  proof (cases "k < length (threads j)")
    case True
    obtain res w
      where step: "step_at (w_pc (threads j ! k)) n True (results j) (threads j ! k) = (res, w)"
      by (cases "step_at (w_pc (threads j ! k)) n True (results j) (threads j ! k)")
    have "run k n j = j\<lparr>results := res, threads := (threads j)[k := w]\<rparr>"
      using True step assms by (simp add: run_unfold)
    with step_at_distance [OF step refl] Run assms True show ?thesis
      by (cases "k = i") simp_all
  next
    case False
    with Run assms show ?thesis by (simp add: run_def)
  qed
qed (use assms in \<open>simp_all add: stop_def\<close>)

lemma exec_distance:
  "stop_event j \<Longrightarrow> \<forall>e\<in>set evs. \<not> is_Start e \<Longrightarrow> i < length (threads j) \<Longrightarrow>
     distance (w_pc (threads (exec evs j) ! i))
       \<le> distance (w_pc (threads j ! i)) - length (filter (steps_of i) evs)"
proof (induction evs arbitrary: j)
  case Nil
  show ?case by simp
next
  case (Cons e evs)
  have "distance (w_pc (threads (exec evs (do_event e j)) ! i))
      \<le> distance (w_pc (threads (do_event e j) ! i)) - length (filter (steps_of i) evs)"
    using Cons by (simp add: do_event_keeps)
  moreover have "distance (w_pc (threads (do_event e j) ! i))
      \<le> distance (w_pc (threads j ! i)) - (if steps_of i e then 1 else 0)"
    using Cons.prems by (simp add: do_event_distance)
  ultimately show ?case by (cases "steps_of i e") simp_all
qed

lemma distance_bound: "distance p \<le> 3"
  by (cases p) simp_all

lemma distance_zero: "distance p = 0 \<Longrightarrow> p = Finished"
  by (cases p) simp_all

lemma appending_running:
  "sum_list (map (\<lambda>w. appending (w_pc w)) ws) \<le> length (filter running ws)"
proof (induction ws)
  case Nil
  show ?case by simp
next
  case (Cons w ws)
  have "appending (w_pc w) \<le> (if running w then 1 else 0)"
    by (cases "w_pc w") (simp_all add: running_def)
  with Cons show ?case by (auto split: if_splits)
qed

lemma step_at_results:
  "step_at p n flag res w = (res', w') \<Longrightarrow>
     (p = Init \<and> res' = []) \<or> res' = res \<or> (\<exists>x. res' = res @ [x])"
  by (cases "(p, n, flag, res, w)" rule: step_at.cases)
    (auto split: option.splits sum.splits if_splits)

lemma run_other:
  "k \<noteq> i \<Longrightarrow> threads (run k n j) ! i = threads j ! i"
  by (simp add: run_def split: prod.splits)

lemma do_event_other:
  "\<not> steps_of i e \<Longrightarrow> i < length (threads j) \<Longrightarrow> threads (do_event e j) ! i = threads j ! i"
  by (cases e) (simp_all add: run_other start_def stop_def nth_append)

lemma do_event_length:
  "length (threads j) \<le> length (threads (do_event e j))"
  by (cases e) (simp_all add: run_keeps start_def stop_def)

lemma own_appends_idle:
  "\<not> i < length (threads j) \<Longrightarrow> \<forall>e\<in>set evs. \<not> is_Start e \<Longrightarrow> own_appends i evs j = 0"
proof (induction evs arbitrary: j)
  case Nil
  show ?case by simp
next
  case (Cons e evs)
  have same: "length (threads (do_event e j)) = length (threads j)"
    using Cons.prems by (simp add: do_event_keeps)
  have "steps_of i e \<Longrightarrow> do_event e j = j"
    using Cons.prems(1) by (cases e) (simp_all add: run_idle)
  then have "(if steps_of i e then added j (do_event e j) else 0) = 0"
    by (simp add: added_def)
  moreover have "own_appends i evs (do_event e j) = 0"
    using Cons same by simp
  ultimately show ?case by simp
qed

lemma step_at_flagged_own:
  "step_at p n True res w = (res', w') \<Longrightarrow> w_pc w = p \<Longrightarrow>
     (length res' - length res) + appending (w_pc w') \<le> appending p"
  by (cases "(p, n, True, res, w)" rule: step_at.cases) (auto split: option.splits)

lemma do_event_flagged_own:
  assumes "stop_event j" and "i < length (threads j)" and "steps_of i e"
  shows "added j (do_event e j) + appending (w_pc (threads (do_event e j) ! i))
           \<le> appending (w_pc (threads j ! i))"
proof (cases e)
  case (Run k n)
  with assms(3) have k: "k = i" by simp
  obtain res w
    where step: "step_at (w_pc (threads j ! i)) n True (results j) (threads j ! i) = (res, w)"
    by (cases "step_at (w_pc (threads j ! i)) n True (results j) (threads j ! i)")
  have after: "run i n j = j\<lparr>results := res, threads := (threads j)[i := w]\<rparr>"
    using assms(1) assms(2) step by (simp add: run_unfold)
  have "(length res - length (results j)) + appending (w_pc w)
      \<le> appending (w_pc (threads j ! i))"
    using step_at_flagged_own [OF step] by simp
  with Run k after assms(2) show ?thesis
    by (simp add: added_def)
qed (use assms in simp_all)

lemma own_appends_flagged:
  "stop_event j \<Longrightarrow> \<forall>e\<in>set evs. \<not> is_Start e \<Longrightarrow> i < length (threads j) \<Longrightarrow>
     own_appends i evs j \<le> appending (w_pc (threads j ! i))"
proof (induction evs arbitrary: j)
  case Nil
  show ?case by simp
next
  case (Cons e evs)
  have rest: "own_appends i evs (do_event e j) \<le> appending (w_pc (threads (do_event e j) ! i))"
    using Cons by (simp add: do_event_keeps)
  show ?case
  proof (cases "steps_of i e")
    case True
    with do_event_flagged_own [OF Cons.prems(1) Cons.prems(3) True] rest show ?thesis
      by simp
  next
    case False
    with do_event_other [OF False Cons.prems(3)] rest show ?thesis
      by simp
  qed
qed

lemma appending_bound: "appending p \<le> 1"
  by (cases p) simp_all

text \<open>
  C2, as the specification states it: after \<^verbatim>\<open>stop\<close> the results list would grow by one
  item at most. With two workers past the test of the flag it grows by two; and after a
  start that follows the stop, the worker that was running goes on and it grows by five.
\<close>

theorem stop_latency_counterexample:
  "length (results two_checked_job) = 0
   \<and> length (results (exec both_step (stop two_checked_job))) = 2
   \<and> length (results busy_job) = 0
   \<and> length (results (exec restart_schedule (stop busy_job))) = 5"
  by code_simp

text \<open>
  C2, amended: after \<^verbatim>\<open>stop\<close> has set the flag and as long as no start clears it again,
  whatever the workers and further calls of \<^verbatim>\<open>stop\<close> do, every worker appends one more item
  at most, the results list grows by no more items than there were workers running at the
  stop, and a worker has ended once it has taken three steps.
\<close>

theorem stop_latency:
  assumes "\<forall>e\<in>set evs. \<not> is_Start e"
  shows "own_appends i evs (stop j) \<le> 1
    \<and> length (results (exec evs (stop j)))
        \<le> length (results j) + length (filter running (threads j))
    \<and> (i < length (threads j) \<and> 3 \<le> length (filter (steps_of i) evs) \<longrightarrow>
         w_pc (threads (exec evs (stop j)) ! i) = Finished)"
proof (intro conjI impI)
  have flag: "stop_event (stop j)"
    by (simp add: stop_def)
  have same: "results (stop j) = results j" "threads (stop j) = threads j"
    by (simp_all add: stop_def)
  show "own_appends i evs (stop j) \<le> 1"
  proof (cases "i < length (threads (stop j))")
    case True
    have "own_appends i evs (stop j) \<le> appending (w_pc (threads (stop j) ! i))"
      using flag assms True by (rule own_appends_flagged)
    with appending_bound [of "w_pc (threads (stop j) ! i)"] show ?thesis
      by linarith
  next
    case False
    then show ?thesis
      using assms by (simp add: own_appends_idle)
  qed
  have "appending_total (stop j) \<le> length (filter running (threads j))"
    unfolding appending_total_def same by (rule appending_running)
  moreover have "length (results (exec evs (stop j))) + appending_total (exec evs (stop j))
      \<le> length (results j) + appending_total (stop j)"
    using exec_flagged [OF flag assms] by (simp add: same)
  ultimately show "length (results (exec evs (stop j)))
      \<le> length (results j) + length (filter running (threads j))"
    by linarith
next
  assume steps: "i < length (threads j) \<and> 3 \<le> length (filter (steps_of i) evs)"
  have flag: "stop_event (stop j)"
    by (simp add: stop_def)
  have i: "i < length (threads (stop j))"
    using steps by (simp add: stop_def)
  have "distance (w_pc (threads (exec evs (stop j)) ! i))
      \<le> distance (w_pc (threads (stop j) ! i)) - length (filter (steps_of i) evs)"
    using flag assms i by (rule exec_distance)
  with steps distance_bound [of "w_pc (threads (stop j) ! i)"]
  have "distance (w_pc (threads (exec evs (stop j)) ! i)) = 0"
    by linarith
  then show "w_pc (threads (exec evs (stop j)) ! i) = Finished"
    by (rule distance_zero)
qed

theorem stop_latency_witness:
  "filter is_Start both_step = []
   \<and> length (threads two_checked_job) = 2
   \<and> length (filter running (threads two_checked_job)) = 2
   \<and> length (filter (steps_of 0) both_step) = 3
   \<and> own_appends 0 both_step (stop two_checked_job) \<le> 1
   \<and> length (results (exec both_step (stop two_checked_job)))
       \<le> length (results two_checked_job) + 2
   \<and> w_pc (threads (exec both_step (stop two_checked_job)) ! 0) = Finished"
proof -
  have quiet: "\<forall>e\<in>set both_step. \<not> is_Start e"
    by (simp add: both_step_def)
  have none: "filter is_Start both_step = []"
    by (simp add: both_step_def)
  have two: "length (threads two_checked_job) = 2"
    "length (filter running (threads two_checked_job)) = 2"
    by code_simp+
  have three: "length (filter (steps_of 0) both_step) = 3"
    by (simp add: both_step_def)
  from stop_latency [OF quiet, of 0 two_checked_job] none two three
  show ?thesis by simp
qed

lemma step_at_budget:
  assumes "step_at p n flag res w = (res', w')" and "w_pc w = p"
    and "appending p = 1 \<longrightarrow> w_found w < w_max_results w"
  shows "(appending (w_pc w') = 1 \<longrightarrow> w_found w' < w_max_results w')
    \<and> (length res' - length res) + budget w' \<le> budget w"
  using assms unfolding budget_def
  by (cases "(p, n, flag, res, w)" rule: step_at.cases)
    (auto split: option.splits sum.splits if_splits)

lemma do_event_budget:
  assumes "i < length (threads j)"
    and "appending (w_pc (threads j ! i)) = 1 \<longrightarrow>
           w_found (threads j ! i) < w_max_results (threads j ! i)"
  shows "(appending (w_pc (threads (do_event e j) ! i)) = 1 \<longrightarrow>
            w_found (threads (do_event e j) ! i) < w_max_results (threads (do_event e j) ! i))
    \<and> (if steps_of i e then added j (do_event e j) else 0) + budget (threads (do_event e j) ! i)
        \<le> budget (threads j ! i)"
proof (cases "steps_of i e")
  case True
  then obtain n where e: "e = Run i n"
    by (cases e) simp_all
  obtain res w
    where step: "step_at (w_pc (threads j ! i)) n (stop_event j) (results j) (threads j ! i) = (res, w)"
    by (cases "step_at (w_pc (threads j ! i)) n (stop_event j) (results j) (threads j ! i)")
  have after: "run i n j = j\<lparr>results := res, threads := (threads j)[i := w]\<rparr>"
    using assms(1) step by (rule run_unfold)
  have "(appending (w_pc w) = 1 \<longrightarrow> w_found w < w_max_results w)
    \<and> (length res - length (results j)) + budget w \<le> budget (threads j ! i)"
    using step refl assms(2) by (rule step_at_budget)
  with e after assms(1) show ?thesis
    by (simp add: added_def)
next
  case False
  with do_event_other [OF False assms(1)] assms(2) show ?thesis
    by simp
qed

lemma own_appends_budget:
  "i < length (threads j) \<Longrightarrow>
   appending (w_pc (threads j ! i)) = 1 \<longrightarrow> w_found (threads j ! i) < w_max_results (threads j ! i) \<Longrightarrow>
   own_appends i evs j \<le> budget (threads j ! i)"
proof (induction evs arbitrary: j)
  case Nil
  show ?case by simp
next
  case (Cons e evs)
  note step = do_event_budget [OF Cons.prems(1) Cons.prems(2), of e]
  have "i < length (threads (do_event e j))"
    using Cons.prems(1) do_event_length [of j e] by linarith
  then have "own_appends i evs (do_event e j) \<le> budget (threads (do_event e j) ! i)"
    using step by (intro Cons.IH) simp_all
  with step show ?case
    by simp
qed

lemma first_step:
  assumes "i < length (threads j)" and "w_pc (threads j ! i) = Init"
  shows "results (run i n j) = []"
    and "w_max_results (threads (run i n j) ! i) = min (w_max_results (threads j ! i)) 1000"
  using assms by (simp_all add: run_def worker_step_def)

text \<open>
  C3: the first step of a worker empties the results list and replaces its bound by the
  smaller of the bound and 1000; and along every schedule, whatever other workers, starts
  and stops it holds, the worker itself appends at most that many items over its two
  loops, and none where the bound is negative.
\<close>

theorem worker_appends_quota:
  assumes "i < length (threads j)" and "w_pc (threads j ! i) = Init"
  shows "results (run i n j) = []
    \<and> w_max_results (threads (run i n j) ! i) = min (w_max_results (threads j ! i)) 1000
    \<and> own_appends i evs j \<le> nat (min (w_max_results (threads j ! i)) 1000)"
proof -
  have "appending (w_pc (threads j ! i)) = 1 \<longrightarrow>
      w_found (threads j ! i) < w_max_results (threads j ! i)"
    using assms(2) by simp
  with assms(1) have "own_appends i evs j \<le> budget (threads j ! i)"
    by (rule own_appends_budget)
  then have "own_appends i evs j \<le> nat (min (w_max_results (threads j ! i)) 1000)"
    using assms(2) by (simp add: budget_def)
  with first_step [OF assms, of n] show ?thesis
    by simp
qed

theorem worker_appends_quota_witness:
  "length (threads overlapping_job) = 2
   \<and> w_pc (threads overlapping_job ! 1) = Init
   \<and> w_max_results (threads overlapping_job ! 1) = 1
   \<and> results (run 1 bare_net overlapping_job) = []
   \<and> w_max_results (threads (run 1 bare_net overlapping_job) ! 1) = 1
   \<and> own_appends 1 overlap_schedule overlapping_job \<le> 1"
proof -
  have two: "length (threads overlapping_job) = 2"
    by code_simp
  have init: "w_pc (threads overlapping_job ! 1) = Init"
    by code_simp
  have bound: "w_max_results (threads overlapping_job ! 1) = 1"
    by code_simp
  from two have "1 < length (threads overlapping_job)"
    by simp
  from worker_appends_quota [OF this init, of bare_net overlap_schedule] two init bound
  show ?thesis by simp
qed

end
